theory Spec2Isabelle
  imports Main "HOL-Library.Multiset" "HOL-Library.Sublist" "HOL-Library.AList"
begin

section \<open>Doctor calendar: appointments and the per-day status\<close>

text \<open>
  The \<open>Appointment\<close> interface of \<open>app/(doctor)/calendar.tsx\<close>. The field \<open>status\<close> is
  copied from the database row without a check, so at run time it may hold any string or be
  absent (\<open>null\<close>/\<open>undefined\<close>); it is a \<open>string option\<close>, \<open>None\<close> for an absent value. The
  optional fields are options as well; \<open>id\<close>, \<open>notes\<close> and \<open>type\<close> carry the prefix \<open>apt_\<close>.
\<close>

record Appointment =
  apt_id :: string
  date :: string
  patientName :: string
  time :: string
  condition :: string
  status :: "string option"
  patient_id :: string
  doctor_id :: string
  symptoms :: "string option"
  apt_notes :: "string option"
  apt_type :: "string option"
  appointment_type :: string
  priority :: string

text \<open>\<open>appointments.filter(apt => apt.date === dateString)\<close>\<close>

definition getAppointmentsForDate :: "Appointment list \<Rightarrow> string \<Rightarrow> Appointment list" where
  "getAppointmentsForDate appointments dateString =
     filter (\<lambda>apt. date apt = dateString) appointments"

definition hasAppointment :: "Appointment list \<Rightarrow> string \<Rightarrow> bool" where
  "hasAppointment appointments dateString =
     (length (getAppointmentsForDate appointments dateString) > 0)"

text \<open>
  \<open>getAppointmentStatus\<close>: \<open>null\<close> is \<open>None\<close>; \<open>Array.prototype.some\<close> is \<open>list_ex\<close>; the strict
  equality \<open>apt.status === 'completed'\<close> is false for an absent status.
\<close>

definition getAppointmentStatus :: "Appointment list \<Rightarrow> string \<Rightarrow> string option" where
  "getAppointmentStatus appointments dateString =
     (let dayAppointments = getAppointmentsForDate appointments dateString in
      if length dayAppointments = 0 then None
      else
        let hasCompleted = list_ex (\<lambda>apt. status apt = Some ''completed'') dayAppointments;
            hasScheduled = list_ex (\<lambda>apt. status apt = Some ''scheduled''
                                        \<or> status apt = Some ''confirmed'') dayAppointments
        in if hasCompleted \<and> hasScheduled then Some ''mixed''
           else if hasCompleted then Some ''completed''
           else if hasScheduled then Some ''scheduled''
           else Some ''cancelled'')"

definition getAppointmentDotColor :: "string option \<Rightarrow> string" where
  "getAppointmentDotColor st =
     (if st = Some ''completed'' then ''#10B981''
      else if st = Some ''scheduled'' then ''#F59E0B''
      else if st = Some ''mixed'' then ''#8B5CF6''
      else if st = Some ''cancelled'' then ''#EF4444''
      else ''#EF4444'')"

text \<open>An appointment with the given id, date and status, the other fields fixed; for examples.\<close>

definition apt0 :: "string \<Rightarrow> string \<Rightarrow> string option \<Rightarrow> Appointment" where
  "apt0 i d s = \<lparr> apt_id = i, date = d, patientName = ''P'', time = ''9:00 AM'',
     condition = ''General Consultation'', status = s, patient_id = ''p1'', doctor_id = ''d1'',
     symptoms = None, apt_notes = None, apt_type = None, appointment_type = ''video'',
     priority = ''low'' \<rparr>"

section \<open>The built-in Date, by day number\<close>

text \<open>
  The calendar code reads and builds \<open>Date\<close> objects of the language. They are modelled after
  the date algorithms of ECMA-262 (section "Date Objects"), at the granularity of days: a
  \<open>Date\<close> is the number of its local calendar day, counted from 1 January 1970 (day 0), or
  \<open>None\<close> for an Invalid Date; the time of day and the zone offset are dropped, since the
  calendar only constructs local midnights and reads local fields. A number that may be \<open>NaN\<close>
  is an \<open>int option\<close>, \<open>None\<close> for \<open>NaN\<close>.
\<close>

type_synonym number = "int option"

definition DaysInYear :: "int \<Rightarrow> int" where
  "DaysInYear y =
     (if y mod 4 \<noteq> 0 then 365 else if y mod 100 \<noteq> 0 then 366
      else if y mod 400 \<noteq> 0 then 365 else 366)"

definition DayFromYear :: "int \<Rightarrow> int" where
  "DayFromYear y =
     365 * (y - 1970) + (y - 1969) div 4 - (y - 1901) div 100 + (y - 1601) div 400"

text \<open>
  ECMA-262 defines \<open>YearFromTime(t)\<close> as the largest \<open>y\<close> with \<open>DayFromYear(y) \<le> Day(t)\<close>. The
  executable form below takes the year of the mean Gregorian year length (146097 days in 400
  years) and moves it by at most one; \<open>YearFromTime_greatest\<close> shows that it is that
  largest \<open>y\<close>.
\<close>

definition YearFromTime :: "int \<Rightarrow> int" where
  "YearFromTime t =
     (let y = 1970 + (400 * t) div 146097 in
      if t < DayFromYear y then y - 1
      else if DayFromYear (y + 1) \<le> t then y + 1
      else y)"

definition InLeapYear :: "int \<Rightarrow> int" where
  "InLeapYear t = (if DaysInYear (YearFromTime t) = 366 then 1 else 0)"

definition DayWithinYear :: "int \<Rightarrow> int" where
  "DayWithinYear t = t - DayFromYear (YearFromTime t)"

definition MonthFromTime :: "int \<Rightarrow> int" where
  "MonthFromTime t =
     (let d = DayWithinYear t; l = InLeapYear t in
      if d < 31 then 0
      else if d < 59 + l then 1
      else if d < 90 + l then 2
      else if d < 120 + l then 3
      else if d < 151 + l then 4
      else if d < 181 + l then 5
      else if d < 212 + l then 6
      else if d < 243 + l then 7
      else if d < 273 + l then 8
      else if d < 304 + l then 9
      else if d < 334 + l then 10
      else 11)"

definition DateFromTime :: "int \<Rightarrow> int" where
  "DateFromTime t =
     (let d = DayWithinYear t; l = InLeapYear t; m = MonthFromTime t in
      if m = 0 then d + 1
      else if m = 1 then d - 30
      else if m = 2 then d - 58 - l
      else if m = 3 then d - 89 - l
      else if m = 4 then d - 119 - l
      else if m = 5 then d - 150 - l
      else if m = 6 then d - 180 - l
      else if m = 7 then d - 211 - l
      else if m = 8 then d - 242 - l
      else if m = 9 then d - 272 - l
      else if m = 10 then d - 303 - l
      else d - 333 - l)"

definition WeekDay :: "int \<Rightarrow> int" where
  "WeekDay t = (t + 4) mod 7"

text \<open>
  \<open>MakeDay(year, month, date)\<close>: the day number of the first day of month \<open>month mod 12\<close> of the
  year \<open>year + month div 12\<close>, plus \<open>date - 1\<close>. \<open>MonthStart mn l\<close> is the day within the year on
  which month \<open>mn\<close> begins, \<open>l\<close> being 1 in a leap year (the bounds of \<open>MonthFromTime\<close>);
  \<open>first_of_month\<close> and \<open>MakeDay_first_date\<close> show that the day found has the year, month
  and date 1 that ECMA-262 asks of it. The range of time values is checked in \<open>TimeClip\<close>.
\<close>

definition MonthStart :: "int \<Rightarrow> int \<Rightarrow> int" where
  "MonthStart mn l =
     (if mn = 0 then 0
      else if mn = 1 then 31
      else if mn = 2 then 59 + l
      else if mn = 3 then 90 + l
      else if mn = 4 then 120 + l
      else if mn = 5 then 151 + l
      else if mn = 6 then 181 + l
      else if mn = 7 then 212 + l
      else if mn = 8 then 243 + l
      else if mn = 9 then 273 + l
      else if mn = 10 then 304 + l
      else 334 + l)"

definition MakeDay :: "int \<Rightarrow> int \<Rightarrow> int \<Rightarrow> int" where
  "MakeDay year month dt =
     (let ym = year + month div 12;
          mn = month mod 12
      in DayFromYear ym + MonthStart mn (if DaysInYear ym = 366 then 1 else 0) + dt - 1)"











section \<open>Doctor calendar: date keys and the month grid\<close>







text \<open>
  The elements that \<open>renderCalendar\<close> pushes onto \<open>days\<close>. An empty cell carries the index of
  its key \<open>empty-i\<close>. A day cell carries what the loop body computes for it: the day (its key
  and label), the date key passed to \<open>setSelectedDate\<close> on press, \<open>hasApt\<close>,
  \<open>appointmentStatus\<close> and \<open>isSelected\<close>; the styles and the dot of the element are functions
  of these (\<open>dotColor\<close>).
\<close>

datatype cell =
  Empty (cell_index: int)
| Day (cell_day: int) (cell_dateString: string) (cell_hasApt: bool)
    (cell_status: "string option") (cell_isSelected: bool)

text \<open>\<open>hasApt && !isSelected && <View ... backgroundColor: getAppointmentDotColor(...)>\<close>\<close>

definition dotColor :: "cell \<Rightarrow> string option" where
  "dotColor c =
     (case c of
        Empty i \<Rightarrow> None
      | Day d k h st sel \<Rightarrow> if h \<and> \<not> sel then Some (getAppointmentDotColor st) else None)"










text \<open>
  \<open>upcomingAppointments\<close>. The two dates compared come from the date parser of the platform,
  which is a parameter: \<open>parse s\<close> is the time value of \<open>new Date(s)\<close>, and \<open>today\<close> the time
  value of \<open>new Date(new Date().toDateString())\<close>, local midnight of the current day; each is
  \<open>None\<close> for an Invalid Date. \<open>>=\<close> on two dates compares their time values and is false
  when either is \<open>NaN\<close>. \<open>slice(0, 10)\<close> is \<open>take 10\<close>.
\<close>

definition num_ge :: "number \<Rightarrow> number \<Rightarrow> bool" where
  "num_ge a b = (case (a, b) of (Some x, Some y) \<Rightarrow> x \<ge> y | _ \<Rightarrow> False)"

definition upcomingAppointments ::
  "(string \<Rightarrow> number) \<Rightarrow> number \<Rightarrow> Appointment list \<Rightarrow> Appointment list"
where
  "upcomingAppointments parse today appointments =
     take 10 (filter (\<lambda>apt. num_ge (parse (date apt @ ''T00:00:00'')) today) appointments)"

section \<open>Patient roster: grouping prescriptions by patient\<close>

























section \<open>The Gregorian calendar and the date key format, as the specification words them\<close>

text \<open>
  The calendar that the grid is compared with: leap years by the 4/100/400 rule, the month
  lengths by table, the day number of a date counted year by year and month by month from
  1 January 1970, and the weekday counted from that day, a Thursday (0 is Sunday). Months are
  zero-based, as in the program.
\<close>

definition leap_year :: "int \<Rightarrow> bool" where
  "leap_year y = (y mod 4 = 0 \<and> (y mod 100 \<noteq> 0 \<or> y mod 400 = 0))"










text \<open>
  The statuses that the aggregator knows, and an appointment with an unknown or absent
  status read as a cancelled one.
\<close>

definition recognised :: "string option \<Rightarrow> bool" where
  "recognised s = (s = Some ''scheduled'' \<or> s = Some ''confirmed'' \<or> s = Some ''completed''
     \<or> s = Some ''cancelled'')"

definition collapse :: "Appointment \<Rightarrow> Appointment" where
  "collapse apt = (if recognised (status apt) then apt else apt\<lparr>status := Some ''cancelled''\<rparr>)"





section \<open>Facts about the date algorithms\<close>

lemma div_succ:
  fixes x k :: int
  assumes "0 < k"
  shows "(x + 1) div k = x div k + (if (x + 1) mod k = 0 then 1 else 0)"
proof -
  define q where "q = x div k"
  define r where "r = x mod k"
  have x: "x = k * q + r" unfolding q_def r_def by simp
  have r: "0 \<le> r" "r < k" unfolding r_def using assms by simp_all
  show ?thesis
  proof (cases "r + 1 = k")
    case True
    then have e: "x + 1 = k * (q + 1) + 0" using x by (simp add: algebra_simps)
    have "(x + 1) div k = q + 1"
      by (rule int_div_pos_eq [OF e]) (use assms in simp_all)
    moreover have "(x + 1) mod k = 0"
      by (rule int_mod_pos_eq [OF e]) (use assms in simp_all)
    ultimately show ?thesis by (simp add: q_def)
  next
    case False
    with r have r1: "0 \<le> r + 1" "r + 1 < k" by simp_all
    have e: "x + 1 = k * q + (r + 1)" using x by simp
    have "(x + 1) div k = q" by (rule int_div_pos_eq [OF e r1])
    moreover have "(x + 1) mod k = r + 1" by (rule int_mod_pos_eq [OF e r1])
    ultimately show ?thesis using r by (simp add: q_def)
  qed
qed

lemma mod_shift: "((y::int) - k * c) mod k = y mod k"
  by (metis mod_diff_eq mod_mult_self1_is_0 diff_zero mod_mod_trivial)

lemma m4: "((y::int) - 1969 + 1) mod 4 = y mod 4"
  using mod_shift [of y 4 492] by simp
lemma m100: "((y::int) - 1901 + 1) mod 100 = y mod 100"
  using mod_shift [of y 100 19] by simp
lemma m400: "((y::int) - 1601 + 1) mod 400 = y mod 400"
  using mod_shift [of y 400 4] by simp

lemma mod_chain: "(y::int) mod 400 = 0 \<Longrightarrow> y mod 100 = 0" "(y::int) mod 100 = 0 \<Longrightarrow> y mod 4 = 0"
proof -
  have a: "(100::int) dvd 400" "(4::int) dvd 100" by simp_all
  show "y mod 400 = 0 \<Longrightarrow> y mod 100 = 0"
    using a(1) by (meson dvd_trans mod_0_imp_dvd dvd_imp_mod_0)
  show "y mod 100 = 0 \<Longrightarrow> y mod 4 = 0"
    using a(2) by (meson dvd_trans mod_0_imp_dvd dvd_imp_mod_0)
qed

lemma bnd: "(k::int) > 0 \<Longrightarrow> k * (x div k) \<le> x \<and> x \<le> k * (x div k) + (k - 1)"
proof -
  assume k: "k > 0"
  have "x = k * (x div k) + x mod k" by simp
  moreover have "0 \<le> x mod k" "x mod k < k" using k by simp_all
  ultimately show ?thesis by linarith
qed


lemma DayFromYear_Suc: "DayFromYear (y + 1) = DayFromYear y + DaysInYear y"
proof -
  have 1: "(y + 1 - 1969) div 4 = (y - 1969) div 4 + (if y mod 4 = 0 then 1 else 0)"
    using div_succ [of 4 "y - 1969"] m4 [of y] by (simp add: algebra_simps)
  have 2: "(y + 1 - 1901) div 100 = (y - 1901) div 100 + (if y mod 100 = 0 then 1 else 0)"
    using div_succ [of 100 "y - 1901"] m100 [of y] by (simp add: algebra_simps)
  have 3: "(y + 1 - 1601) div 400 = (y - 1601) div 400 + (if y mod 400 = 0 then 1 else 0)"
    using div_succ [of 400 "y - 1601"] m400 [of y] by (simp add: algebra_simps)
  show ?thesis
    unfolding DayFromYear_def DaysInYear_def 1 2 3
    using mod_chain [of y] by auto
qed

lemma DayFromYear_bounds:
  "146097 * (y - 1970) - 506 \<le> 400 * DayFromYear y"
  "400 * DayFromYear y \<le> 146097 * (y - 1970) + 589"
proof -
  define a where "a = (y - 1969) div 4"
  define b where "b = (y - 1901) div 100"
  define c where "c = (y - 1601) div 400"
  have a: "4 * a \<le> y - 1969" "y - 1969 \<le> 4 * a + 3"
    unfolding a_def using bnd [of 4 "y - 1969"] by simp_all
  have b: "100 * b \<le> y - 1901" "y - 1901 \<le> 100 * b + 99"
    unfolding b_def using bnd [of 100 "y - 1901"] by simp_all
  have c: "400 * c \<le> y - 1601" "y - 1601 \<le> 400 * c + 399"
    unfolding c_def using bnd [of 400 "y - 1601"] by simp_all
  have d: "DayFromYear y = 365 * (y - 1970) + a - b + c"
    by (simp add: DayFromYear_def a_def b_def c_def)
  have a': "100 * y - 197200 \<le> 400 * a" "400 * a \<le> 100 * y - 196900"
    using a by simp_all
  have b': "4 * y - 8000 \<le> 400 * b" "400 * b \<le> 4 * y - 7604"
    using b by simp_all
  have c': "y - 2000 \<le> 400 * c" "400 * c \<le> y - 1601"
    using c by simp_all
  have e: "400 * DayFromYear y = 146000 * y - 287620000 + 400 * a - 400 * b + 400 * c"
    unfolding d by simp
  show "146097 * (y - 1970) - 506 \<le> 400 * DayFromYear y"
    unfolding e using a'(1) b'(2) c'(1) by simp
  show "400 * DayFromYear y \<le> 146097 * (y - 1970) + 589"
    unfolding e using a'(2) b'(1) c'(2) by simp
qed

lemma DaysInYear_range: "365 \<le> DaysInYear y" "DaysInYear y \<le> 366"
  by (simp_all add: DaysInYear_def)

lemma DaysInYear_cases: "DaysInYear y = 365 \<or> DaysInYear y = 366"
  by (simp add: DaysInYear_def)

lemma DayFromYear_less_Suc: "DayFromYear y < DayFromYear (y + 1)"
  using DaysInYear_range(1) [of y] by (simp add: DayFromYear_Suc)

lemma DayFromYear_mono_aux: "0 \<le> k \<Longrightarrow> DayFromYear y \<le> DayFromYear (y + k)"
proof (induction k rule: int_ge_induct)
  case base
  show ?case by simp
next
  case (step i)
  have "DayFromYear (y + i) < DayFromYear (y + i + 1)" by (rule DayFromYear_less_Suc)
  moreover have "y + i + 1 = y + (i + 1)" by simp
  ultimately have "DayFromYear (y + i) < DayFromYear (y + (i + 1))" by simp
  with step.IH show ?case by linarith
qed

lemma DayFromYear_mono: "x \<le> y \<Longrightarrow> DayFromYear x \<le> DayFromYear y"
  using DayFromYear_mono_aux [of "y - x" x] by simp

text \<open>The year found is the one whose days contain \<open>t\<close>, and no other year does.\<close>

lemma YearFromTime_bracket:
  "DayFromYear (YearFromTime t) \<le> t \<and> t < DayFromYear (YearFromTime t + 1)"
proof -
  define q where "q = (400 * t) div 146097"
  define r where "r = (400 * t) mod 146097"
  have r: "0 \<le> r" "r < 146097"
    unfolding r_def by simp_all
  have "400 * t = 146097 * q + r"
    unfolding q_def r_def by simp
  with r have q: "146097 * q \<le> 400 * t" "400 * t < 146097 * q + 146097"
    by simp_all
  have lo: "DayFromYear (1970 + q - 1) \<le> t"
    using DayFromYear_bounds(2) [of "1970 + q - 1"] q(1) by simp
  have hi: "t < DayFromYear (1970 + q + 2)"
    using DayFromYear_bounds(1) [of "1970 + q + 2"] q(2) by simp
  define y where "y = 1970 + q"
  have y: "YearFromTime t =
      (if t < DayFromYear y then y - 1 else if DayFromYear (y + 1) \<le> t then y + 1 else y)"
    unfolding YearFromTime_def Let_def y_def q_def ..
  have lo': "DayFromYear (y - 1) \<le> t" using lo unfolding y_def .
  have "y + 1 + 1 = 1970 + q + 2" unfolding y_def by simp
  with hi have hi': "t < DayFromYear (y + 1 + 1)" by simp
  show ?thesis
  proof (cases "t < DayFromYear y")
    case True
    with y have "YearFromTime t = y - 1" by simp
    with True lo' show ?thesis by simp
  next
    case False
    show ?thesis
    proof (cases "DayFromYear (y + 1) \<le> t")
      case True
      with False y have "YearFromTime t = y + 1" by simp
      with True hi' show ?thesis by simp
    next
      case F2: False
      with False y have "YearFromTime t = y" by simp
      with False F2 show ?thesis by simp
    qed
  qed
qed

lemma YearFromTime_unique:
  assumes "DayFromYear y \<le> t" "t < DayFromYear (y + 1)"
  shows "YearFromTime t = y"
proof (rule ccontr)
  assume n: "YearFromTime t \<noteq> y"
  note br = YearFromTime_bracket [of t]
  show False
  proof (cases "YearFromTime t < y")
    case True
    then have "DayFromYear (YearFromTime t + 1) \<le> DayFromYear y"
      by (intro DayFromYear_mono) simp
    with br assms show False by linarith
  next
    case False
    with n have "y + 1 \<le> YearFromTime t" by simp
    then have "DayFromYear (y + 1) \<le> DayFromYear (YearFromTime t)"
      by (rule DayFromYear_mono)
    with br assms show False by linarith
  qed
qed

text \<open>
  The executable \<open>YearFromTime\<close> is the one ECMA-262 words: the largest year that begins on
  or before the day.
\<close>

lemma YearFromTime_greatest: "(DayFromYear y \<le> t) = (y \<le> YearFromTime t)"
proof
  assume a: "DayFromYear y \<le> t"
  show "y \<le> YearFromTime t"
  proof (rule ccontr)
    assume "\<not> y \<le> YearFromTime t"
    then have "YearFromTime t + 1 \<le> y" by simp
    then have "DayFromYear (YearFromTime t + 1) \<le> DayFromYear y" by (rule DayFromYear_mono)
    with a YearFromTime_bracket [of t] show False by linarith
  qed
next
  assume "y \<le> YearFromTime t"
  then have "DayFromYear y \<le> DayFromYear (YearFromTime t)" by (rule DayFromYear_mono)
  with YearFromTime_bracket [of t] show "DayFromYear y \<le> t" by linarith
qed

lemma in_year:
  assumes "0 \<le> k" "k < DaysInYear y"
  shows "YearFromTime (DayFromYear y + k) = y"
    and "DayWithinYear (DayFromYear y + k) = k"
    and "InLeapYear (DayFromYear y + k) = (if DaysInYear y = 366 then 1 else 0)"
proof -
  show y: "YearFromTime (DayFromYear y + k) = y"
    by (rule YearFromTime_unique) (use assms in \<open>simp_all add: DayFromYear_Suc\<close>)
  show "DayWithinYear (DayFromYear y + k) = k"
    by (simp add: DayWithinYear_def y)
  show "InLeapYear (DayFromYear y + k) = (if DaysInYear y = 366 then 1 else 0)"
    by (simp add: InLeapYear_def y)
qed



lemma DaysInYear_leap: "DaysInYear y = (if leap_year y then 366 else 365)"
proof -
  have "(if \<not> a then 365 else if \<not> b then 366 else if \<not> c then 365 else 366)
      = (if a \<and> (\<not> b \<or> c) then 366 else (365::int))" for a b c
    by simp
  from this [of "y mod 4 = 0" "y mod 100 = 0" "y mod 400 = 0"] show ?thesis
    unfolding DaysInYear_def leap_year_def by simp
qed

lemma month_cases:
  "0 \<le> (m::int) \<Longrightarrow> m \<le> 11 \<Longrightarrow>
   m = 0 \<or> m = 1 \<or> m = 2 \<or> m = 3 \<or> m = 4 \<or> m = 5 \<or> m = 6 \<or> m = 7 \<or> m = 8 \<or> m = 9
   \<or> m = 10 \<or> m = 11"
  by arith

lemma MakeDay_in_year:
  assumes "0 \<le> m" "m \<le> 11"
  shows "MakeDay y m d = DayFromYear y + (MonthStart m (if leap_year y then 1 else 0) + d - 1)"
proof -
  from assms have "m div 12 = 0" "m mod 12 = m" by simp_all
  then show ?thesis
    by (simp add: MakeDay_def Let_def DaysInYear_leap)
qed


lemma DateFromTime_MonthStart:
  "DateFromTime t = DayWithinYear t - MonthStart (MonthFromTime t) (InLeapYear t) + 1"
  by (simp add: DateFromTime_def MonthStart_def Let_def)

lemma Month_in_year:
  assumes "0 \<le> k" "k < DaysInYear y"
  shows "MonthFromTime (DayFromYear y + k) =
     (let l = (if leap_year y then 1 else 0) in
      if k < 31 then 0
      else if k < 59 + l then 1
      else if k < 90 + l then 2
      else if k < 120 + l then 3
      else if k < 151 + l then 4
      else if k < 181 + l then 5
      else if k < 212 + l then 6
      else if k < 243 + l then 7
      else if k < 273 + l then 8
      else if k < 304 + l then 9
      else if k < 334 + l then 10
      else 11)"
proof -
  have l: "InLeapYear (DayFromYear y + k) = (if leap_year y then 1 else 0)"
    unfolding in_year(3) [OF assms] by (simp add: DaysInYear_leap)
  show ?thesis
    unfolding MonthFromTime_def in_year(2) [OF assms] l Let_def ..
qed






lemma first_of_month_leap:
  assumes "0 \<le> m" "m \<le> 11" "leap_year y"
  shows "YearFromTime (MakeDay y m 1) = y \<and> MonthFromTime (MakeDay y m 1) = m"
proof -
  have diy: "DaysInYear y = 366" using assms(3) by (simp add: DaysInYear_leap)
  have M: "0 \<le> k \<Longrightarrow> k < 366 \<Longrightarrow> MonthFromTime (DayFromYear y + k) =
      (if k < 31 then 0 else if k < 60 then 1 else if k < 91 then 2
       else if k < 121 then 3 else if k < 152 then 4 else if k < 182 then 5
       else if k < 213 then 6 else if k < 244 then 7 else if k < 274 then 8
       else if k < 305 then 9 else if k < 335 then 10 else 11)" for k
    using Month_in_year [of k y] assms(3) by (simp add: diy Let_def)
  have Y: "0 \<le> k \<Longrightarrow> k < 366 \<Longrightarrow> YearFromTime (DayFromYear y + k) = y" for k
    using in_year(1) [of k y] by (simp add: diy)
  have Z: "YearFromTime (DayFromYear y) = y" "MonthFromTime (DayFromYear y) = 0"
    using Y [of 0] M [of 0] by simp_all
  from month_cases [OF assms(1,2)] show ?thesis
    unfolding MakeDay_in_year [OF assms(1,2)]
    by (elim disjE) (simp_all add: assms(3) MonthStart_def M Y Z)
qed

lemma first_of_month_common:
  assumes "0 \<le> m" "m \<le> 11" "\<not> leap_year y"
  shows "YearFromTime (MakeDay y m 1) = y \<and> MonthFromTime (MakeDay y m 1) = m"
proof -
  have diy: "DaysInYear y = 365" using assms(3) by (simp add: DaysInYear_leap)
  have M: "0 \<le> k \<Longrightarrow> k < 365 \<Longrightarrow> MonthFromTime (DayFromYear y + k) =
      (if k < 31 then 0 else if k < 59 then 1 else if k < 90 then 2
       else if k < 120 then 3 else if k < 151 then 4 else if k < 181 then 5
       else if k < 212 then 6 else if k < 243 then 7 else if k < 273 then 8
       else if k < 304 then 9 else if k < 334 then 10 else 11)" for k
    using Month_in_year [of k y] assms(3) by (simp add: diy Let_def)
  have Y: "0 \<le> k \<Longrightarrow> k < 365 \<Longrightarrow> YearFromTime (DayFromYear y + k) = y" for k
    using in_year(1) [of k y] by (simp add: diy)
  have Z: "YearFromTime (DayFromYear y) = y" "MonthFromTime (DayFromYear y) = 0"
    using Y [of 0] M [of 0] by simp_all
  from month_cases [OF assms(1,2)] show ?thesis
    unfolding MakeDay_in_year [OF assms(1,2)]
    by (elim disjE) (simp_all add: assms(3) MonthStart_def M Y Z)
qed

lemma first_of_month:
  assumes "0 \<le> m" "m \<le> 11"
  shows "YearFromTime (MakeDay y m 1) = y" and "MonthFromTime (MakeDay y m 1) = m"
  using first_of_month_leap [OF assms, of y] first_of_month_common [OF assms, of y]
  by blast+

text \<open>
  The executable \<open>MakeDay\<close> finds the day ECMA-262 asks for: the day of the given year and
  month whose date is 1.
\<close>

lemma MakeDay_first_date:
  assumes "0 \<le> m" "m \<le> 11"
  shows "DateFromTime (MakeDay y m 1) = 1"
proof -
  define l :: int where "l = (if leap_year y then 1 else 0)"
  have k: "0 \<le> MonthStart m l" "MonthStart m l < DaysInYear y"
    using month_cases [OF assms]
    by (auto simp: MonthStart_def DaysInYear_leap l_def)
  have t: "MakeDay y m 1 = DayFromYear y + MonthStart m l"
    unfolding MakeDay_in_year [OF assms] l_def by simp
  have "InLeapYear (DayFromYear y + MonthStart m l) = l"
    unfolding in_year(3) [OF k] by (simp add: DaysInYear_leap l_def)
  moreover have "MonthFromTime (DayFromYear y + MonthStart m l) = m"
    using first_of_month(2) [OF assms, of y] unfolding t .
  ultimately show ?thesis
    unfolding t DateFromTime_MonthStart in_year(2) [OF k] by simp
qed








section \<open>Facts about the grid loops and the reference calendar\<close>






















lemma WeekDay_range: "0 \<le> WeekDay t" "WeekDay t \<le> 6"
  by (simp_all add: WeekDay_def)



lemma length_upto: "length [i..j] = nat (j - i + 1)"
  by simp









lemma num_ge_Some: "num_ge a b \<Longrightarrow> \<exists>t now. a = Some t \<and> b = Some now \<and> now \<le> t"
  by (cases a; cases b) (simp_all add: num_ge_def)


section \<open>Facts about the roster aggregation\<close>













section \<open>The status aggregator\<close>

lemma list_ex_set: "list_ex P xs = (\<exists>x\<in>set xs. P x)"
  by (simp add: list_ex_iff)

text \<open>
  C1. For a day whose appointment sequence is not empty, the aggregator returns \<open>mixed\<close> when
  the day has a completed appointment and one that is scheduled or confirmed; otherwise
  \<open>completed\<close> when it has a completed one; otherwise \<open>scheduled\<close> when it has a scheduled or
  confirmed one; otherwise \<open>cancelled\<close>.
\<close>

theorem aggregator_precedence:
  assumes "dayAppointments = getAppointmentsForDate appointments dateString"
    and "dayAppointments \<noteq> []"
  shows "getAppointmentStatus appointments dateString =
     (if (\<exists>a\<in>set dayAppointments. status a = Some ''completed'')
          \<and> (\<exists>a\<in>set dayAppointments. status a \<in> {Some ''scheduled'', Some ''confirmed''})
        then Some ''mixed''
      else if (\<exists>a\<in>set dayAppointments. status a = Some ''completed'')
        then Some ''completed''
      else if (\<exists>a\<in>set dayAppointments. status a \<in> {Some ''scheduled'', Some ''confirmed''})
        then Some ''scheduled''
      else Some ''cancelled'')"
proof -
  have c: "list_ex (\<lambda>apt. status apt = Some ''completed'') dayAppointments
      = (\<exists>a\<in>set dayAppointments. status a = Some ''completed'')"
    by (rule list_ex_set)
  have s: "list_ex (\<lambda>apt. status apt = Some ''scheduled'' \<or> status apt = Some ''confirmed'')
        dayAppointments
      = (\<exists>a\<in>set dayAppointments. status a \<in> {Some ''scheduled'', Some ''confirmed''})"
    by (simp add: list_ex_set)
  from assms(2) have "length dayAppointments \<noteq> 0" by simp
  with assms(1) show ?thesis
    unfolding getAppointmentStatus_def Let_def c [symmetric] s [symmetric]
    by simp
qed

theorem aggregator_precedence_witness:
  "getAppointmentStatus
     [apt0 ''a'' ''2024-02-10'' (Some ''completed''),
      apt0 ''b'' ''2024-02-11'' (Some ''cancelled''),
      apt0 ''c'' ''2024-02-10'' (Some ''scheduled'')] ''2024-02-10'' = Some ''mixed''
   \<and> getAppointmentStatus
     [apt0 ''a'' ''2024-02-10'' (Some ''completed''),
      apt0 ''b'' ''2024-02-10'' (Some ''completed'')] ''2024-02-10'' = Some ''completed''
   \<and> getAppointmentStatus
     [apt0 ''a'' ''2024-02-10'' (Some ''confirmed'')] ''2024-02-10'' = Some ''scheduled''
   \<and> getAppointmentStatus
     [apt0 ''a'' ''2024-02-10'' (Some ''cancelled''),
      apt0 ''b'' ''2024-02-10'' (Some ''cancelled'')] ''2024-02-10'' = Some ''cancelled''"
  using aggregator_precedence [OF refl, of
      "[apt0 ''a'' ''2024-02-10'' (Some ''completed''),
        apt0 ''b'' ''2024-02-11'' (Some ''cancelled''),
        apt0 ''c'' ''2024-02-10'' (Some ''scheduled'')]" "''2024-02-10''"]
    aggregator_precedence [OF refl, of
      "[apt0 ''a'' ''2024-02-10'' (Some ''completed''),
        apt0 ''b'' ''2024-02-10'' (Some ''completed'')]" "''2024-02-10''"]
    aggregator_precedence [OF refl, of
      "[apt0 ''a'' ''2024-02-10'' (Some ''confirmed'')]" "''2024-02-10''"]
    aggregator_precedence [OF refl, of
      "[apt0 ''a'' ''2024-02-10'' (Some ''cancelled''),
        apt0 ''b'' ''2024-02-10'' (Some ''cancelled'')]" "''2024-02-10''"]
  by (simp add: getAppointmentsForDate_def apt0_def)


text \<open>
  C2. A day whose appointment lookup is empty has the composite status \<open>none\<close> (\<open>null\<close>) and
  \<open>hasAppointment\<close> false; a day with at least one appointment has \<open>hasAppointment\<close> true.
\<close>

theorem empty_day_status:
  "(getAppointmentsForDate appointments dateString = []
      \<longrightarrow> getAppointmentStatus appointments dateString = None
          \<and> \<not> hasAppointment appointments dateString)
   \<and> (getAppointmentsForDate appointments dateString \<noteq> []
      \<longrightarrow> hasAppointment appointments dateString)"
  by (simp add: getAppointmentStatus_def hasAppointment_def)

theorem empty_day_status_witness:
  "getAppointmentStatus [apt0 ''a'' ''2024-02-10'' (Some ''completed'')] ''2024-02-11'' = None
   \<and> \<not> hasAppointment [apt0 ''a'' ''2024-02-10'' (Some ''completed'')] ''2024-02-11''
   \<and> hasAppointment [apt0 ''a'' ''2024-02-10'' (Some ''completed'')] ''2024-02-10''"
proof -
  have e: "getAppointmentsForDate [apt0 ''a'' ''2024-02-10'' (Some ''completed'')]
      ''2024-02-11'' = []"
    by (simp add: getAppointmentsForDate_def apt0_def)
  have n: "getAppointmentsForDate [apt0 ''a'' ''2024-02-10'' (Some ''completed'')]
      ''2024-02-10'' \<noteq> []"
    by (simp add: getAppointmentsForDate_def apt0_def)
  from empty_day_status [of "[apt0 ''a'' ''2024-02-10'' (Some ''completed'')]" "''2024-02-11''"]
    empty_day_status [of "[apt0 ''a'' ''2024-02-10'' (Some ''completed'')]" "''2024-02-10''"]
    e n
  show ?thesis by blast
qed

text \<open>
  C6. The composite status of a day depends only on the multiset of the statuses of the
  day's appointments: two appointment lists whose lookups for a day carry the same statuses,
  in any order and whatever the other fields hold, give that day the same composite status.
\<close>

theorem status_depends_on_status_multiset:
  assumes "mset (map status (getAppointmentsForDate appointments dateString))
         = mset (map status (getAppointmentsForDate appointments' dateString'))"
  shows "getAppointmentStatus appointments dateString
       = getAppointmentStatus appointments' dateString'"
proof -
  let ?xs = "getAppointmentsForDate appointments dateString"
  let ?ys = "getAppointmentsForDate appointments' dateString'"
  from assms have "size (mset (map status ?xs)) = size (mset (map status ?ys))" by simp
  then have len: "length ?xs = length ?ys" by simp
  from assms have "set_mset (mset (map status ?xs)) = set_mset (mset (map status ?ys))" by simp
  then have st: "status ` set ?xs = status ` set ?ys" by simp
  have ex: "list_ex (\<lambda>apt. P (status apt)) zs = (\<exists>s\<in>status ` set zs. P s)"
    for P and zs :: "Appointment list"
    by (simp add: list_ex_iff)
  have c: "list_ex (\<lambda>apt. status apt = Some ''completed'') ?xs
      = list_ex (\<lambda>apt. status apt = Some ''completed'') ?ys"
    unfolding ex [of "\<lambda>s. s = Some ''completed''"] st ..
  have s: "list_ex (\<lambda>apt. status apt = Some ''scheduled'' \<or> status apt = Some ''confirmed'') ?xs
      = list_ex (\<lambda>apt. status apt = Some ''scheduled'' \<or> status apt = Some ''confirmed'') ?ys"
    unfolding ex [of "\<lambda>s. s = Some ''scheduled'' \<or> s = Some ''confirmed''"] st ..
  show ?thesis
    unfolding getAppointmentStatus_def Let_def len c s ..
qed

theorem status_depends_on_status_multiset_witness:
  "getAppointmentStatus
     [apt0 ''a'' ''2024-02-10'' (Some ''completed''),
      apt0 ''b'' ''2024-02-10'' (Some ''scheduled''),
      apt0 ''c'' ''2024-02-11'' (Some ''cancelled'')] ''2024-02-10''
   = getAppointmentStatus
     [(apt0 ''x'' ''2024-03-01'' (Some ''scheduled''))\<lparr>patientName := ''Q'', priority := ''high''\<rparr>,
      (apt0 ''y'' ''2024-03-01'' (Some ''completed''))\<lparr>time := ''4:30 PM''\<rparr>] ''2024-03-01''
   \<and> getAppointmentStatus
     [apt0 ''a'' ''2024-02-10'' (Some ''completed''),
      apt0 ''b'' ''2024-02-10'' (Some ''scheduled''),
      apt0 ''c'' ''2024-02-11'' (Some ''cancelled'')] ''2024-02-10'' = Some ''mixed''"
proof -
  have "mset (map status (getAppointmentsForDate
          [apt0 ''a'' ''2024-02-10'' (Some ''completed''),
           apt0 ''b'' ''2024-02-10'' (Some ''scheduled''),
           apt0 ''c'' ''2024-02-11'' (Some ''cancelled'')] ''2024-02-10''))
      = mset (map status (getAppointmentsForDate
          [(apt0 ''x'' ''2024-03-01'' (Some ''scheduled''))\<lparr>patientName := ''Q'', priority := ''high''\<rparr>,
           (apt0 ''y'' ''2024-03-01'' (Some ''completed''))\<lparr>time := ''4:30 PM''\<rparr>] ''2024-03-01''))"
    by (simp add: getAppointmentsForDate_def apt0_def)
  from status_depends_on_status_multiset [OF this] show ?thesis
    by (simp add: getAppointmentStatus_def getAppointmentsForDate_def apt0_def)
qed

text \<open>
  C8. The aggregator returns a composite status for every input: \<open>none\<close> for a day without
  appointments, otherwise one of \<open>mixed\<close>, \<open>completed\<close>, \<open>scheduled\<close> and \<open>cancelled\<close>. A status
  that is absent or none of \<open>scheduled\<close>, \<open>confirmed\<close>, \<open>completed\<close> and \<open>cancelled\<close> counts as
  \<open>cancelled\<close>: replacing every such status by \<open>cancelled\<close> leaves the result as it is, and a
  day that has appointments, all with such a status, is \<open>cancelled\<close>.
\<close>

theorem aggregator_total:
  "getAppointmentStatus appointments dateString
     \<in> {None, Some ''mixed'', Some ''completed'', Some ''scheduled'', Some ''cancelled''}
   \<and> (getAppointmentStatus appointments dateString = None
        \<longleftrightarrow> getAppointmentsForDate appointments dateString = [])
   \<and> getAppointmentStatus (map collapse appointments) dateString
       = getAppointmentStatus appointments dateString
   \<and> (getAppointmentsForDate appointments dateString \<noteq> []
        \<and> (\<forall>a\<in>set (getAppointmentsForDate appointments dateString). \<not> recognised (status a))
      \<longrightarrow> getAppointmentStatus appointments dateString = Some ''cancelled'')"
proof (intro conjI impI)
  show "getAppointmentStatus appointments dateString
     \<in> {None, Some ''mixed'', Some ''completed'', Some ''scheduled'', Some ''cancelled''}"
    by (simp add: getAppointmentStatus_def Let_def)
  show "getAppointmentStatus appointments dateString = None
        \<longleftrightarrow> getAppointmentsForDate appointments dateString = []"
    by (simp add: getAppointmentStatus_def Let_def)
next
  have d: "date (collapse a) = date a" for a by (simp add: collapse_def)
  have f: "getAppointmentsForDate (map collapse appointments) dateString
      = map collapse (getAppointmentsForDate appointments dateString)"
    by (simp add: getAppointmentsForDate_def filter_map comp_def d)
  have c: "(status (collapse a) = Some ''completed'') = (status a = Some ''completed'')" for a
    by (auto simp: collapse_def recognised_def)
  have s: "(status (collapse a) = Some ''scheduled'' \<or> status (collapse a) = Some ''confirmed'')
      = (status a = Some ''scheduled'' \<or> status a = Some ''confirmed'')" for a
    by (auto simp: collapse_def recognised_def)
  show "getAppointmentStatus (map collapse appointments) dateString
       = getAppointmentStatus appointments dateString"
    unfolding getAppointmentStatus_def Let_def f
    by (simp add: list_ex_iff c s)
next
  assume a: "getAppointmentsForDate appointments dateString \<noteq> []
        \<and> (\<forall>a\<in>set (getAppointmentsForDate appointments dateString). \<not> recognised (status a))"
  then have "\<not> list_ex (\<lambda>apt. status apt = Some ''completed'')
        (getAppointmentsForDate appointments dateString)"
    and "\<not> list_ex (\<lambda>apt. status apt = Some ''scheduled'' \<or> status apt = Some ''confirmed'')
        (getAppointmentsForDate appointments dateString)"
    by (auto simp: list_ex_iff recognised_def)
  with a show "getAppointmentStatus appointments dateString = Some ''cancelled''"
    by (simp add: getAppointmentStatus_def Let_def)
qed

theorem aggregator_total_witness:
  "getAppointmentStatus
     [apt0 ''a'' ''2024-02-10'' (Some ''no-show''), apt0 ''b'' ''2024-02-10'' None] ''2024-02-10''
     = Some ''cancelled''
   \<and> getAppointmentStatus
     [apt0 ''a'' ''2024-02-10'' (Some ''no-show''), apt0 ''b'' ''2024-02-10'' (Some ''confirmed'')]
       ''2024-02-10''
     = getAppointmentStatus
     [apt0 ''a'' ''2024-02-10'' (Some ''cancelled''), apt0 ''b'' ''2024-02-10'' (Some ''confirmed'')]
       ''2024-02-10''"
proof -
  have 1: "getAppointmentsForDate
      [apt0 ''a'' ''2024-02-10'' (Some ''no-show''), apt0 ''b'' ''2024-02-10'' None] ''2024-02-10''
      \<noteq> []
    \<and> (\<forall>a\<in>set (getAppointmentsForDate
      [apt0 ''a'' ''2024-02-10'' (Some ''no-show''), apt0 ''b'' ''2024-02-10'' None] ''2024-02-10'').
        \<not> recognised (status a))"
    by (simp add: getAppointmentsForDate_def apt0_def recognised_def)
  have 2: "map collapse
      [apt0 ''a'' ''2024-02-10'' (Some ''no-show''), apt0 ''b'' ''2024-02-10'' (Some ''confirmed'')]
     = [apt0 ''a'' ''2024-02-10'' (Some ''cancelled''), apt0 ''b'' ''2024-02-10'' (Some ''confirmed'')]"
    by (simp add: collapse_def apt0_def recognised_def)
  from aggregator_total [of
      "[apt0 ''a'' ''2024-02-10'' (Some ''no-show''), apt0 ''b'' ''2024-02-10'' None]"
      "''2024-02-10''"] 1
  have a: "getAppointmentStatus
     [apt0 ''a'' ''2024-02-10'' (Some ''no-show''), apt0 ''b'' ''2024-02-10'' None] ''2024-02-10''
     = Some ''cancelled''" by blast
  from aggregator_total [of
      "[apt0 ''a'' ''2024-02-10'' (Some ''no-show''), apt0 ''b'' ''2024-02-10'' (Some ''confirmed'')]"
      "''2024-02-10''"]
  have b: "getAppointmentStatus (map collapse
      [apt0 ''a'' ''2024-02-10'' (Some ''no-show''), apt0 ''b'' ''2024-02-10'' (Some ''confirmed'')])
       ''2024-02-10''
     = getAppointmentStatus
      [apt0 ''a'' ''2024-02-10'' (Some ''no-show''), apt0 ''b'' ''2024-02-10'' (Some ''confirmed'')]
       ''2024-02-10''" by blast
  from a b show ?thesis unfolding 2 by simp
qed

section \<open>The day count of a month\<close>




section \<open>The month grid\<close>











section \<open>The patient roster\<close>




section \<open>Upcoming appointments\<close>

text \<open>
  C10. The upcoming appointments are at most ten, each has a date whose local midnight is
  not before the local midnight of the current day, and they stand in the order of the
  appointment list.
\<close>

theorem upcoming_appointments:
  assumes "upcoming = upcomingAppointments parse today appointments"
  shows "length upcoming \<le> 10
       \<and> (\<forall>apt\<in>set upcoming. \<exists>t now. parse (date apt @ ''T00:00:00'') = Some t
             \<and> today = Some now \<and> now \<le> t)
       \<and> subseq upcoming appointments"
proof -
  let ?p = "\<lambda>apt. num_ge (parse (date apt @ ''T00:00:00'')) today"
  have u: "upcoming = take 10 (filter ?p appointments)"
    unfolding assms upcomingAppointments_def ..
  have 1: "length upcoming \<le> 10" unfolding u by simp
  have "set upcoming \<subseteq> set (filter ?p appointments)"
    unfolding u by (rule set_take_subset)
  then have "\<forall>apt\<in>set upcoming. ?p apt" by auto
  then have 2: "\<forall>apt\<in>set upcoming. \<exists>t now. parse (date apt @ ''T00:00:00'') = Some t
      \<and> today = Some now \<and> now \<le> t"
    by (blast dest: num_ge_Some)
  have "subseq (take 10 (filter ?p appointments)) (filter ?p appointments)"
    by (metis append_take_drop_id subseq_rev_drop_many subseq_order.order_refl)
  also have "subseq (filter ?p appointments) appointments" by simp
  finally have 3: "subseq upcoming appointments" unfolding u .
  from 1 2 3 show ?thesis by simp
qed

theorem upcoming_appointments_witness:
  "upcomingAppointments (\<lambda>s. if s = ''2024-02-05T00:00:00'' then Some 1707091200000
        else if s = ''2024-02-01T00:00:00'' then Some 1706745600000 else None)
      (Some 1706918400000)
      [apt0 ''a'' ''2024-02-01'' (Some ''completed''), apt0 ''b'' ''2024-02-05'' None,
       apt0 ''c'' ''soon'' None]
     = [apt0 ''b'' ''2024-02-05'' None]
   \<and> subseq [apt0 ''b'' ''2024-02-05'' None]
      [apt0 ''a'' ''2024-02-01'' (Some ''completed''), apt0 ''b'' ''2024-02-05'' None,
       apt0 ''c'' ''soon'' None]"
proof -
  let ?parse = "\<lambda>s. if s = ''2024-02-05T00:00:00'' then Some (1707091200000::int)
        else if s = ''2024-02-01T00:00:00'' then Some 1706745600000 else None"
  let ?A = "[apt0 ''a'' ''2024-02-01'' (Some ''completed''), apt0 ''b'' ''2024-02-05'' None,
       apt0 ''c'' ''soon'' None]"
  have u: "upcomingAppointments ?parse (Some 1706918400000) ?A = [apt0 ''b'' ''2024-02-05'' None]"
    by (simp add: upcomingAppointments_def num_ge_def apt0_def)
  from upcoming_appointments [OF refl, of ?parse "Some 1706918400000" ?A]
  have "subseq (upcomingAppointments ?parse (Some 1706918400000) ?A) ?A" by blast
  with u show ?thesis by simp
qed

end
